theory Spec2Isabelle
  imports Complex_Main
begin

section \<open>The PDB2PQR driver (\<open>pdb2pqr/main.py\<close>)\<close>

text \<open>
  The development embeds \<open>mainCommand\<close>, the command-line driver of PDB2PQR. The driver
  validates the parsed arguments, reads the input structure, hands the records to the
  pipeline (\<open>run.runPDB2PQR\<close>) and writes the resulting lines to the output file.

  Strings are character lists. Every effect of the driver (a file opened, a collaborator
  called, a line written) is an event of a trace, and every exception that can leave the
  driver is a value of the type \<open>error\<close>. The collaborators that live in other modules
  (\<open>utilities\<close>, \<open>pdb\<close>, \<open>cif\<close>, \<open>run\<close>, the file system) are the fields of an
  environment record; they are parameters of every statement below.
\<close>

subsection \<open>Strings, slices and paths\<close>

definition slice :: "nat \<Rightarrow> nat \<Rightarrow> 'a list \<Rightarrow> 'a list" where
  \<comment> \<open>Python's \<open>xs[i:j]\<close> for \<open>0 \<le> i \<le> j\<close>: out-of-range bounds are clamped.\<close>
  "slice i j xs = take (j - i) (drop i xs)"

definition lower_char :: "char \<Rightarrow> char" where
  \<comment> \<open>\<open>str.lower\<close> on one ASCII character.\<close>
  "lower_char c =
     (let n = (of_char c :: nat) in if 65 \<le> n \<and> n \<le> 90 then char_of (n + 32) else c)"

definition lower :: "string \<Rightarrow> string" where
  "lower s = map lower_char s"

definition str_opt :: "string option \<Rightarrow> string" where
  \<comment> \<open>\<open>"%s" % x\<close> for \<open>x\<close> a string or \<open>None\<close>.\<close>
  "str_opt x = (case x of None \<Rightarrow> ''None'' | Some s \<Rightarrow> s)"

fun parts_of :: "string \<Rightarrow> string \<Rightarrow> string list" where
  \<comment> \<open>Splitting at \<open>/\<close>; the first argument is the component read so far.\<close>
  "parts_of cur [] = [cur]"
| "parts_of cur (c # cs) =
     (if c = CHR ''/'' then cur # parts_of [] cs else parts_of (cur @ [c]) cs)"

definition path_name :: "string \<Rightarrow> string" where
  \<comment> \<open>\<open>Path(p).name\<close> on a POSIX path: the last component, empty and \<open>.\<close> components
      dropped; the empty string when there is none.\<close>
  "path_name p =
     (case rev (filter (\<lambda>s. s \<noteq> [] \<and> s \<noteq> ''.'') (parts_of [] p)) of
        [] \<Rightarrow> []
      | n # _ \<Rightarrow> n)"

fun rfind :: "char \<Rightarrow> string \<Rightarrow> nat option" where
  \<comment> \<open>\<open>s.rfind(c)\<close>, with \<open>None\<close> for Python's \<open>-1\<close>.\<close>
  "rfind c [] = None"
| "rfind c (x # xs) =
     (case rfind c xs of
        Some i \<Rightarrow> Some (Suc i)
      | None \<Rightarrow> if x = c then Some 0 else None)"

definition path_suffix :: "string \<Rightarrow> string" where
  \<comment> \<open>\<open>Path(p).suffix\<close>: \<open>name[i:]\<close> for \<open>i = name.rfind('.')\<close> when
      \<open>0 < i < len(name) - 1\<close>, and the empty string otherwise.\<close>
  "path_suffix p =
     (let name = path_name p in
      case rfind (CHR ''.'') name of
        None \<Rightarrow> []
      | Some i \<Rightarrow> if 0 < i \<and> Suc i < length name then drop i name else [])"

subsection \<open>The whitespace option\<close>

definition add_whitespace :: "string \<Rightarrow> string" where
  \<comment> \<open>Lines 139 and 142: \<open>line[0:6] + ' ' + line[6:16] + ' ' + line[16:38] + ' ' +
      line[38:46] + ' ' + line[46:]\<close>.\<close>
  "add_whitespace line =
     slice 0 6 line @ '' '' @ slice 6 16 line @ '' '' @ slice 16 38 line @ '' '' @
     slice 38 46 line @ '' '' @ drop 46 line"

definition insert_space :: "nat \<Rightarrow> string \<Rightarrow> string" where
  \<comment> \<open>The specification's reading: one space character inserted at column offset \<open>k\<close>;
      at the end of a line that has fewer than \<open>k\<close> characters.\<close>
  "insert_space k s = take k s @ CHR '' '' # drop k s"

definition delete_at :: "nat \<Rightarrow> string \<Rightarrow> string" where
  \<comment> \<open>The character at index \<open>k\<close> deleted.\<close>
  "delete_at k s = take k s @ drop (Suc k) s"

definition write_line :: "bool \<Rightarrow> bool \<Rightarrow> string \<Rightarrow> string list" where
  \<comment> \<open>The body of the loop of lines 136 to 150: the strings passed to
      \<open>outfile.write\<close> for one line, given \<open>args.whitespace\<close> and \<open>args.isCIF\<close>.\<close>
  "write_line ws cif line =
     (if ws then
        (if slice 0 4 line = ''ATOM'' then [add_whitespace line]
         else if slice 0 6 line = ''HETATM'' then [add_whitespace line]
         else if slice 0 3 line = ''TER'' \<and> cif then []
         else [])
      else
        (if slice 0 3 line = ''TER'' \<and> cif then []
         else [line]))"

subsection \<open>Arguments, errors, events\<close>

text \<open>
  The namespace returned by \<open>parser.parse_args()\<close>, with the attributes the driver reads.
  \<open>isCIF\<close> and \<open>outname\<close> are attributes the driver adds itself (lines 95 and 112).
  For \<open>active_extensions\<close> the value \<open>None\<close> stands for an absent attribute and for the
  attribute \<open>None\<close> alike: lines 116 to 119 treat both the same way. The target pH is a
  finite number; its comparisons with 0 and 14 are exact.
\<close>

record args =
  assign_only :: bool
  clean :: bool
  debump :: bool
  opt :: bool
  usernames :: "string option"
  userff :: "string option"
  ff :: "string option"
  ph :: real
  pka_method :: "string option"
  ligand :: "string option"
  neutraln :: bool
  neutralc :: bool
  input_pdb :: string
  output_pqr :: string
  whitespace :: bool
  apbs_input :: bool
  isCIF :: bool
  outname :: "string option"
  active_extensions :: "string list option"

datatype error =
    ParserError string
    \<comment> \<open>\<open>parser.error(message)\<close>: argparse prints the message and exits.\<close>
  | OSError string
    \<comment> \<open>\<open>open\<close> failed on this path.\<close>
  | AttributeError string
  | NameError string
  | PDB2PQRError string
  | OtherException string

datatype run_exn = PDB2PQR_exn string | Other_exn string

record results =
  header :: string
  lines :: "string list"
  missed_ligands :: "string list"

datatype event =
    LogDebug
  | LogInfo
  | OpenRead string
  | GetFFfile "string option"
  | LoadOptions
  | GetPDBFile string
  | ReadPDB
  | ReadCIF
  | RunPDB2PQR args
  | LogError string
  | OpenWrite string
  | Write string
  | Close
  | ApbsInput string

text \<open>
  The collaborators. \<open>can_read\<close> and \<open>can_write\<close> say whether \<open>open\<close> succeeds on a path
  in the given mode. \<open>readPDB\<close> and \<open>readCIF\<close> return the record list and the list of
  per-record errors. \<open>runPDB2PQR\<close> returns the results dictionary or raises.
  \<open>str_float\<close> and \<open>str_path\<close> are Python's renderings of a float and of a \<open>Path\<close>
  in a message. \<open>run_apbs\<close> is the APBS input generation of lines 156 to 165, which
  returns \<open>Some\<close> message when it raises.
\<close>

record ('f, 'r, 'x) env =
  can_read :: "string \<Rightarrow> bool"
  can_write :: "string \<Rightarrow> bool"
  getFFfile :: "string option \<Rightarrow> string"
  getPDBFile :: "string \<Rightarrow> 'f"
  readPDB :: "'f \<Rightarrow> 'r list \<times> 'x list"
  readCIF :: "'f \<Rightarrow> 'r list \<times> 'x list"
  runPDB2PQR :: "'r list \<Rightarrow> args \<Rightarrow> run_exn + results"
  run_apbs :: "string \<Rightarrow> string option"
  str_float :: "real \<Rightarrow> string"
  str_path :: "string \<Rightarrow> string"

type_synonym 'a outcome = "(error + 'a) \<times> event list"

definition and_then :: "'a outcome \<Rightarrow> ('a \<Rightarrow> 'b outcome) \<Rightarrow> 'b outcome" where
  \<comment> \<open>Sequencing of two statements: an exception of the first ends the run, otherwise
      the second runs and its events follow those of the first.\<close>
  "and_then m f =
     (case m of
        (Inl e, t) \<Rightarrow> (Inl e, t)
      | (Inr x, t) \<Rightarrow> (case f x of (r, t') \<Rightarrow> (r, t @ t')))"

fun written :: "event list \<Rightarrow> string list" where
  \<comment> \<open>The strings written to the output file, in order.\<close>
  "written [] = []"
| "written (Write s # es) = s # written es"
| "written (_ # es) = written es"

fun is_processing :: "event \<Rightarrow> bool" where
  \<comment> \<open>Structure processing: fetching and parsing the input, running the pipeline.\<close>
  "is_processing (GetPDBFile _) = True"
| "is_processing ReadPDB = True"
| "is_processing ReadCIF = True"
| "is_processing (RunPDB2PQR _) = True"
| "is_processing _ = False"

fun is_run :: "event \<Rightarrow> bool" where
  "is_run (RunPDB2PQR _) = True"
| "is_run _ = False"

fun is_output :: "event \<Rightarrow> bool" where
  "is_output (OpenWrite _) = True"
| "is_output (Write _) = True"
| "is_output Close = True"
| "is_output _ = False"

fun is_setup :: "event \<Rightarrow> bool" where
  \<comment> \<open>The events of lines 42 to 89: logging, the option files, the force-field lookup.\<close>
  "is_setup LogDebug = True"
| "is_setup LogInfo = True"
| "is_setup (OpenRead _) = True"
| "is_setup (GetFFfile _) = True"
| "is_setup LoadOptions = True"
| "is_setup _ = False"

subsection \<open>The driver, statement by statement\<close>

definition force_modes :: "args \<Rightarrow> args" where
  \<comment> \<open>Lines 47 to 49.\<close>
  "force_modes a =
     (if assign_only a \<or> clean a then a\<lparr>debump := False, opt := False\<rparr> else a)"

definition open_usernames :: "('f, 'r, 'x) env \<Rightarrow> args \<Rightarrow> unit outcome" where
  \<comment> \<open>Lines 52 to 54.\<close>
  "open_usernames env a =
     (case usernames a of
        None \<Rightarrow> (Inr (), [])
      | Some p \<Rightarrow> if can_read env p then (Inr (), [OpenRead p]) else (Inl (OSError p), []))"

definition open_userff :: "('f, 'r, 'x) env \<Rightarrow> args \<Rightarrow> unit outcome" where
  \<comment> \<open>Lines 55 to 59: the file is opened first, the companion option is checked after.\<close>
  "open_userff env a =
     (case userff a of
        None \<Rightarrow> (Inr (), [])
      | Some p \<Rightarrow>
          if can_read env p then
            (case usernames a of
               None \<Rightarrow>
                 (Inl (ParserError ''--usernames must be specified if using --userff''),
                  [OpenRead p])
             | Some _ \<Rightarrow> (Inr (), [OpenRead p]))
          else (Inl (OSError p), []))"

definition check_ff :: "('f, 'r, 'x) env \<Rightarrow> args \<Rightarrow> unit outcome" where
  \<comment> \<open>Lines 60 and 61.\<close>
  "check_ff env a =
     (if getFFfile env (ff a) = [] then
        (Inl (ParserError (''Unable to load parameter file for forcefield '' @ str_opt (ff a))),
         [GetFFfile (ff a)])
      else (Inr (), [GetFFfile (ff a)]))"

definition check_ph :: "('f, 'r, 'x) env \<Rightarrow> args \<Rightarrow> unit outcome" where
  \<comment> \<open>Lines 62 and 63.\<close>
  "check_ph env a =
     (if ph a < 0 \<or> ph a > 14 then
        (Inl (ParserError (''Specified pH ('' @ str_float env (ph a) @
               '') is outside the range [1, 14] of this program'')), [])
      else (Inr (), []))"

definition validate :: "('f, 'r, 'x) env \<Rightarrow> args \<Rightarrow> unit outcome" where
  \<comment> \<open>Lines 51 to 63: the four checks run only outside clean mode.\<close>
  "validate env a =
     (if \<not> clean a then
        and_then (open_usernames env a) (\<lambda>_.
        and_then (open_userff env a) (\<lambda>_.
        and_then (check_ff env a) (\<lambda>_.
        check_ph env a)))
      else (Inr (), []))"

definition ph_calc_setup :: "args \<Rightarrow> unit outcome" where
  \<comment> \<open>Lines 65 to 76. The dictionary \<open>ph_calc_options\<close> is a local that nothing reads
      afterwards; only the calls and the exits of these lines are kept.
      \<open>args.ff.lower()\<close> on \<open>None\<close> raises AttributeError.\<close>
  "ph_calc_setup a =
     (if pka_method a = Some ''propka'' then (Inr (), [LoadOptions])
      else if pka_method a = Some ''pdb2pka'' then
        (case ff a of
           None \<Rightarrow> (Inl (AttributeError ''lower''), [])
         | Some f \<Rightarrow>
             if lower f = ''parse'' then (Inr (), [])
             else (Inl (ParserError ''PDB2PKA requires the PARSE force field.''), []))
      else (Inr (), []))"

definition open_ligand :: "('f, 'r, 'x) env \<Rightarrow> args \<Rightarrow> unit outcome" where
  \<comment> \<open>Lines 78 to 83: here the failure of \<open>open\<close> is caught and reported.\<close>
  "open_ligand env a =
     (case ligand a of
        None \<Rightarrow> (Inr (), [])
      | Some p \<Rightarrow>
          if can_read env p then (Inr (), [OpenRead p])
          else (Inl (ParserError (''Unable to find ligand file '' @ p @ ''!'')), []))"

definition ff_is_parse :: "args \<Rightarrow> bool" where
  \<comment> \<open>The negation of \<open>args.ff is None or args.ff.lower() != 'parse'\<close>.\<close>
  "ff_is_parse a = (case ff a of None \<Rightarrow> False | Some f \<Rightarrow> lower f = ''parse'')"

definition check_neutral :: "args \<Rightarrow> unit outcome" where
  \<comment> \<open>Lines 85 to 89.\<close>
  "check_neutral a =
     (if neutraln a \<and> \<not> ff_is_parse a then
        (Inl (ParserError ''--neutraln option only works with PARSE forcefield!''), [])
      else if neutralc a \<and> \<not> ff_is_parse a then
        (Inl (ParserError ''--neutralc option only works with PARSE forcefield!''), [])
      else (Inr (), []))"

definition configure :: "('f, 'r, 'x) env \<Rightarrow> args \<Rightarrow> args outcome" where
  \<comment> \<open>Lines 42 to 89: everything before the input structure is touched. Line 42 sets
      the logging level; lines 44 and 45 log the arguments and the header. The result
      is the namespace with the flags of lines 47 to 49 applied.\<close>
  "configure env a0 =
     (let a = force_modes a0 in
      and_then (Inr (), [LogDebug, LogInfo]) (\<lambda>_.
      and_then (validate env a) (\<lambda>_.
      and_then (ph_calc_setup a) (\<lambda>_.
      and_then (open_ligand env a) (\<lambda>_.
      and_then (check_neutral a) (\<lambda>_.
      (Inr a, [])))))))"

definition read_structure ::
  "('f, 'r, 'x) env \<Rightarrow> args \<Rightarrow> ('r list \<times> 'x list \<times> args) outcome" where
  \<comment> \<open>Lines 92 to 100.\<close>
  "read_structure env a =
     (let pdbFile = getPDBFile env (input_pdb a);
          a1 = a\<lparr>isCIF := False\<rparr>
      in if lower (path_suffix (input_pdb a)) = ''cif'' then
           (case readCIF env pdbFile of
              (pdblist, errlist) \<Rightarrow>
                (Inr (pdblist, errlist, a1\<lparr>isCIF := True\<rparr>),
                 [GetPDBFile (input_pdb a), ReadCIF]))
         else
           (case readPDB env pdbFile of
              (pdblist, errlist) \<Rightarrow>
                (Inr (pdblist, errlist, a1), [GetPDBFile (input_pdb a), ReadPDB])))"

definition check_parsed ::
  "('f, 'r, 'x) env \<Rightarrow> args \<Rightarrow> 'r list \<Rightarrow> 'x list \<Rightarrow> unit outcome" where
  \<comment> \<open>Lines 102 to 110. The condition of line 106 reads the bare name \<open>isCIF\<close>, which
      is bound neither in the function nor in the module (the flag is the attribute
      \<open>args.isCIF\<close>): evaluating it raises NameError, so neither warning of lines 107
      and 109 nor the log of line 110 is ever reached.\<close>
  "check_parsed env a pdblist errlist =
     (if pdblist = [] \<and> errlist = [] then
        (Inl (ParserError (''Unable to find file '' @ str_path env (input_pdb a) @ ''!'')), [])
      else if errlist \<noteq> [] then (Inl (NameError ''isCIF''), [])
      else (Inr (), []))"

definition prepare :: "args \<Rightarrow> args" where
  \<comment> \<open>Lines 112 to 120.\<close>
  "prepare a =
     a\<lparr>outname := Some (output_pqr a),
       active_extensions :=
         (case active_extensions a of None \<Rightarrow> Some [] | Some xs \<Rightarrow> Some xs)\<rparr>"

definition run_stage :: "('f, 'r, 'x) env \<Rightarrow> 'r list \<Rightarrow> args \<Rightarrow> results outcome" where
  \<comment> \<open>Lines 122 to 129: only PDB2PQRError is caught; it is logged and raised again.\<close>
  "run_stage env pdblist a =
     (case runPDB2PQR env pdblist a of
        Inr res \<Rightarrow> (Inr res, [RunPDB2PQR a])
      | Inl (PDB2PQR_exn m) \<Rightarrow> (Inl (PDB2PQRError m), [RunPDB2PQR a, LogError m])
      | Inl (Other_exn m) \<Rightarrow> (Inl (OtherException m), [RunPDB2PQR a]))"

definition write_output :: "('f, 'r, 'x) env \<Rightarrow> args \<Rightarrow> results \<Rightarrow> unit outcome" where
  \<comment> \<open>Lines 133 to 153.\<close>
  "write_output env a res =
     (if can_write env (output_pqr a) then
        (Inr (),
         [OpenWrite (output_pqr a), Write (header res)] @
         map Write (concat (map (write_line (whitespace a) (isCIF a)) (lines res))) @
         (if isCIF a then [Write [CHR ''#'', CHR 0x0A]] else []) @
         [Close])
      else (Inl (OSError (output_pqr a)), []))"

definition apbs_stage :: "('f, 'r, 'x) env \<Rightarrow> args \<Rightarrow> unit outcome" where
  \<comment> \<open>Lines 155 to 165.\<close>
  "apbs_stage env a =
     (if apbs_input a then
        (case run_apbs env (output_pqr a) of
           None \<Rightarrow> (Inr (), [ApbsInput (output_pqr a)])
         | Some m \<Rightarrow> (Inl (OtherException m), [ApbsInput (output_pqr a)]))
      else (Inr (), []))"

definition mainCommand :: "('f, 'r, 'x) env \<Rightarrow> args \<Rightarrow> unit outcome" where
  "mainCommand env a0 =
     and_then (configure env a0) (\<lambda>a.
     and_then (read_structure env a) (\<lambda>(pdblist, errlist, a1).
     and_then (check_parsed env a1 pdblist errlist) (\<lambda>_.
     and_then (run_stage env pdblist (prepare a1)) (\<lambda>res.
     and_then (write_output env (prepare a1) res) (\<lambda>_.
     apbs_stage env (prepare a1))))))"

subsection \<open>Example inputs\<close>

text \<open>
  A PQR atom record and a chain terminator as the pipeline emits them (each ends with a
  newline), an argument namespace and an environment in which every file opens, the
  force field \<open>parse\<close> resolves, the reader returns one record and no error, and the
  pipeline returns one atom line and one terminator.
\<close>

definition atom_line :: string where
  "atom_line =
     ''ATOM      1  N   MET A   1      27.340  24.430   2.614 -0.3000 1.8500'' @ [CHR 0x0A]"

definition ter_line :: string where
  "ter_line = ''TER'' @ [CHR 0x0A]"

definition example_args :: args where
  "example_args =
     \<lparr>assign_only = False, clean = False, debump = True, opt = True,
      usernames = None, userff = None, ff = Some ''parse'', ph = 7,
      pka_method = None, ligand = None, neutraln = False, neutralc = False,
      input_pdb = ''1abc.pdb'', output_pqr = ''1abc.pqr'', whitespace = False,
      apbs_input = False, isCIF = False, outname = None, active_extensions = None\<rparr>"

definition example_results :: results where
  "example_results =
     \<lparr>header = ''REMARK'' @ [CHR 0x0A], lines = [atom_line, ter_line], missed_ligands = []\<rparr>"

definition example_env :: "(string, string, string) env" where
  "example_env =
     \<lparr>can_read = (\<lambda>p. True),
      can_write = (\<lambda>p. True),
      getFFfile = (\<lambda>f. if f = Some ''parse'' then ''dat/PARSE.DAT'' else []),
      getPDBFile = (\<lambda>p. p),
      readPDB = (\<lambda>f. ([''ATOM''], [])),
      readCIF = (\<lambda>f. ([''ATOM'', ''CIF''], [])),
      runPDB2PQR = (\<lambda>pdblist a. Inr example_results),
      run_apbs = (\<lambda>p. None),
      str_float = (\<lambda>x. ''15.0''),
      str_path = (\<lambda>p. p)\<rparr>"

section \<open>Properties\<close>

subsection \<open>Sequencing\<close>

lemma and_then_Inl [simp]: "and_then (Inl e, t) f = (Inl e, t)"
  by (simp add: and_then_def)

lemma and_then_Inr [simp]: "and_then (Inr x, t) f = (fst (f x), t @ snd (f x))"
  by (simp add: and_then_def split: prod.splits)

lemma and_then_cases:
  "and_then m f =
     (case fst m of Inl e \<Rightarrow> (Inl e, snd m) | Inr x \<Rightarrow> (fst (f x), snd m @ snd (f x)))"
  by (cases m) (auto simp: and_then_def split: sum.splits prod.splits)

lemma and_then_list_all:
  assumes "list_all Q (snd m)" and "\<And>x. list_all Q (snd (f x))"
  shows "list_all Q (snd (and_then m f))"
  using assms by (cases m) (auto simp: and_then_cases split: sum.splits)

lemma and_then_fst_neq:
  assumes "fst m \<noteq> Inl e" and "\<And>x. fst (f x) \<noteq> Inl e"
  shows "fst (and_then m f) \<noteq> Inl e"
  using assms by (cases m) (auto simp: and_then_cases split: sum.splits)

subsection \<open>The suffix of a path\<close>

lemma rfind_nth: "rfind c s = Some i \<Longrightarrow> i < length s \<and> s ! i = c"
proof (induction s arbitrary: i)
  case Nil
  then show ?case by simp
next
  case (Cons x xs)
  then show ?case by (auto split: option.splits if_splits)
qed

text \<open>A suffix is empty or begins with the dot.\<close>

lemma path_suffix_shape: "path_suffix p = [] \<or> hd (path_suffix p) = CHR ''.''"
proof (cases "rfind (CHR ''.'') (path_name p)")
  case None
  then show ?thesis by (simp add: path_suffix_def)
next
  case (Some i)
  then have "i < length (path_name p)" "path_name p ! i = CHR ''.''"
    using rfind_nth by blast+
  then have "hd (drop i (path_name p)) = CHR ''.''"
    by (simp add: hd_drop_conv_nth)
  with Some show ?thesis by (simp add: path_suffix_def Let_def)
qed

lemma suffix_never_cif: "lower (path_suffix p) \<noteq> ''cif''"
proof
  assume a: "lower (path_suffix p) = ''cif''"
  then have ne: "path_suffix p \<noteq> []" by (auto simp: lower_def)
  with path_suffix_shape [of p] have "hd (path_suffix p) = CHR ''.''" by simp
  with ne have "hd (lower (path_suffix p)) = lower_char (CHR ''.'')"
    by (simp add: lower_def hd_map)
  with a show False by (simp add: lower_char_def)
qed

text \<open>Hence the comparison of line 96 fails on every path, and line 100 reads the input.\<close>

lemma read_structure_pdb:
  "read_structure env a =
     (Inr (fst (readPDB env (getPDBFile env (input_pdb a))),
           snd (readPDB env (getPDBFile env (input_pdb a))),
           a\<lparr>isCIF := False\<rparr>),
      [GetPDBFile (input_pdb a), ReadPDB])"
  by (simp add: read_structure_def suffix_never_cif split: prod.splits)

subsection \<open>Slices and inserted spaces\<close>

lemma slice_drop: "i \<le> j \<Longrightarrow> slice i j xs @ drop j xs = drop i xs"
  unfolding slice_def
  by (metis add_diff_cancel_left' append_take_drop_id drop_drop le_Suc_ex add.commute)

lemma take_slice: "i \<le> j \<Longrightarrow> take i xs @ slice i j xs = take j xs"
  unfolding slice_def
  by (metis le_add_diff_inverse take_add)

lemma slices_cover:
  "slice 0 6 l @ slice 6 16 l @ slice 16 38 l @ slice 38 46 l @ drop 46 l = l"
proof -
  have "slice 38 46 l @ drop 46 l = drop 38 l" by (rule slice_drop) simp
  moreover have "slice 16 38 l @ drop 38 l = drop 16 l" by (rule slice_drop) simp
  moreover have "slice 6 16 l @ drop 16 l = drop 6 l" by (rule slice_drop) simp
  moreover have "slice 0 6 l @ drop 6 l = l" by (simp add: slice_def)
  ultimately show ?thesis by simp
qed

lemma insert_space_short:
  assumes "length s \<le> k"
  shows "insert_space k (s @ replicate m (CHR '' '')) = s @ replicate (Suc m) (CHR '' '')"
proof -
  have "take (k - length s) (replicate m (CHR '' '')) @
          CHR '' '' # drop (k - length s) (replicate m (CHR '' ''))
        = replicate (Suc m) (CHR '' '')"
    by (simp add: min_def replicate_app_Cons_same flip: replicate_add replicate_Suc)
  with assms show ?thesis by (simp add: insert_space_def)
qed

text \<open>
  Inserting at offset \<open>j\<close> in front of a space already inserted at offset \<open>k \<ge> j\<close>.
  On a line shorter than \<open>j\<close> both spaces land behind the line, where only spaces
  follow.
\<close>

lemma insert_space_before:
  assumes jk: "j \<le> k" and short: "length s < j \<Longrightarrow> set r \<subseteq> {CHR '' ''}"
  shows "insert_space j (take k s @ CHR '' '' # r) =
         take j s @ CHR '' '' # slice j k s @ CHR '' '' # r"
proof (cases "j \<le> length s")
  case True
  have "take k s @ CHR '' '' # r = take j s @ (slice j k s @ CHR '' '' # r)"
    using take_slice [OF jk, of s] by simp
  moreover have "length (take j s) = j" using True by simp
  ultimately show ?thesis
    by (simp add: insert_space_def)
next
  case False
  then have n: "length s < j" by simp
  then have "set r \<subseteq> {CHR '' ''}" by (rule short)
  then have r: "replicate (length r) (CHR '' '') = r"
    by (intro replicate_length_same) auto
  have "insert_space j (s @ replicate (Suc (length r)) (CHR '' ''))
        = s @ replicate (Suc (Suc (length r))) (CHR '' '')"
    using n by (intro insert_space_short) simp
  with n jk r show ?thesis by (simp add: slice_def)
qed

lemma add_whitespace_inserts:
  "add_whitespace l = insert_space 6 (insert_space 16 (insert_space 38 (insert_space 46 l)))"
proof -
  have 4: "insert_space 46 l = take 46 l @ CHR '' '' # drop 46 l"
    by (simp add: insert_space_def)
  have 3: "insert_space 38 (insert_space 46 l) =
           take 38 l @ CHR '' '' # slice 38 46 l @ CHR '' '' # drop 46 l"
    unfolding 4 by (rule insert_space_before) simp_all
  have 2: "insert_space 16 (insert_space 38 (insert_space 46 l)) =
           take 16 l @ CHR '' '' # slice 16 38 l @ CHR '' '' # slice 38 46 l @
           CHR '' '' # drop 46 l"
    unfolding 3 by (rule insert_space_before) (simp_all add: slice_def)
  have 1: "insert_space 6 (insert_space 16 (insert_space 38 (insert_space 46 l))) =
           take 6 l @ CHR '' '' # slice 6 16 l @ CHR '' '' # slice 16 38 l @ CHR '' '' #
           slice 38 46 l @ CHR '' '' # drop 46 l"
    unfolding 2 by (rule insert_space_before) (simp_all add: slice_def)
  show ?thesis unfolding 1 by (simp add: add_whitespace_def slice_def)
qed

lemma delete_at_length: "delete_at (length s) (s @ c # t) = s @ t"
  by (simp add: delete_at_def)

lemma add_whitespace_delete:
  "delete_at (min 6 (length l))
     (delete_at (min 16 (length l) + 1)
        (delete_at (min 38 (length l) + 2)
           (delete_at (min 46 (length l) + 3) (add_whitespace l)))) = l"
proof -
  let ?a = "slice 0 6 l" and ?b = "slice 6 16 l"
  let ?c = "slice 16 38 l" and ?d = "slice 38 46 l"
  have la: "length ?a = min 6 (length l)"
    by (simp add: slice_def)
  have lb: "length (?a @ CHR '' '' # ?b) = min 16 (length l) + 1"
    by (auto simp add: slice_def min_def)
  have lc: "length (?a @ CHR '' '' # ?b @ CHR '' '' # ?c) = min 38 (length l) + 2"
    by (auto simp add: slice_def min_def)
  have ld: "length (?a @ CHR '' '' # ?b @ CHR '' '' # ?c @ CHR '' '' # ?d) =
            min 46 (length l) + 3"
    by (auto simp add: slice_def min_def)
  have "delete_at (min 46 (length l) + 3) (add_whitespace l) =
        ?a @ CHR '' '' # ?b @ CHR '' '' # ?c @ CHR '' '' # ?d @ drop 46 l"
    using delete_at_length
      [of "?a @ CHR '' '' # ?b @ CHR '' '' # ?c @ CHR '' '' # ?d" "CHR '' ''" "drop 46 l"]
    unfolding ld by (simp add: add_whitespace_def)
  moreover have
    "delete_at (min 38 (length l) + 2)
       (?a @ CHR '' '' # ?b @ CHR '' '' # ?c @ CHR '' '' # ?d @ drop 46 l)
     = ?a @ CHR '' '' # ?b @ CHR '' '' # ?c @ ?d @ drop 46 l"
    using delete_at_length
      [of "?a @ CHR '' '' # ?b @ CHR '' '' # ?c" "CHR '' ''" "?d @ drop 46 l"]
    unfolding lc by simp
  moreover have
    "delete_at (min 16 (length l) + 1)
       (?a @ CHR '' '' # ?b @ CHR '' '' # ?c @ ?d @ drop 46 l)
     = ?a @ CHR '' '' # ?b @ ?c @ ?d @ drop 46 l"
    using delete_at_length [of "?a @ CHR '' '' # ?b" "CHR '' ''" "?c @ ?d @ drop 46 l"]
    unfolding lb by simp
  moreover have
    "delete_at (min 6 (length l)) (?a @ CHR '' '' # ?b @ ?c @ ?d @ drop 46 l)
     = ?a @ ?b @ ?c @ ?d @ drop 46 l"
    using delete_at_length [of "?a" "CHR '' ''" "?b @ ?c @ ?d @ drop 46 l"]
    unfolding la by simp
  ultimately show ?thesis using slices_cover [of l] by simp
qed

text \<open>
  Claim C9. With the whitespace option on, a line that begins with \<open>ATOM\<close> or
  \<open>HETATM\<close> is written as \<open>add_whitespace line\<close>, and that string is the line with
  one space inserted at each of the column offsets 6, 16, 38 and 46 of the original
  line (Python's slices clamp, so on a line shorter than an offset the space goes to the
  end of the line). The five slices concatenated are the line itself, and deleting the
  four inserted spaces, which sit at the indices \<open>min 6 n\<close>, \<open>min 16 n + 1\<close>,
  \<open>min 38 n + 2\<close> and \<open>min 46 n + 3\<close> of the written string for a line of \<open>n\<close>
  characters (6, 17, 40 and 49 for a full record), gives back the line character for
  character.
\<close>

theorem whitespace_inserts_four_spaces:
  assumes "slice 0 4 line = ''ATOM'' \<or> slice 0 6 line = ''HETATM''"
  shows "write_line True cif line = [add_whitespace line] \<and>
         add_whitespace line =
           insert_space 6 (insert_space 16 (insert_space 38 (insert_space 46 line))) \<and>
         slice 0 6 line @ slice 6 16 line @ slice 16 38 line @ slice 38 46 line @
           drop 46 line = line \<and>
         delete_at (min 6 (length line))
           (delete_at (min 16 (length line) + 1)
              (delete_at (min 38 (length line) + 2)
                 (delete_at (min 46 (length line) + 3) (add_whitespace line)))) = line"
proof -
  have "write_line True cif line = [add_whitespace line]"
    using assms by (auto simp add: write_line_def)
  then show ?thesis
    using add_whitespace_inserts [of line] slices_cover [of line]
      add_whitespace_delete [of line]
    by simp
qed

theorem whitespace_inserts_four_spaces_witness:
  "slice 0 4 atom_line = ''ATOM'' \<and>
   write_line True False atom_line = [add_whitespace atom_line] \<and>
   add_whitespace atom_line =
     ''ATOM       1  N    MET A   1      27.340   24.430    2.614 -0.3000 1.8500'' @
     [CHR 0x0A] \<and>
   delete_at 6 (delete_at 17 (delete_at 40 (delete_at 49 (add_whitespace atom_line))))
     = atom_line"
proof -
  have h: "slice 0 4 atom_line = ''ATOM''"
    by (simp add: slice_def atom_line_def)
  have n: "length atom_line = 70"
    by (simp add: atom_line_def)
  have w: "add_whitespace atom_line =
        ''ATOM       1  N    MET A   1      27.340   24.430    2.614 -0.3000 1.8500'' @
        [CHR 0x0A]"
    by (simp add: add_whitespace_def slice_def atom_line_def)
  have c: "write_line True False atom_line = [add_whitespace atom_line] \<and>
     delete_at (min 6 (length atom_line))
       (delete_at (min 16 (length atom_line) + 1)
          (delete_at (min 38 (length atom_line) + 2)
             (delete_at (min 46 (length atom_line) + 3) (add_whitespace atom_line))))
     = atom_line"
    using whitespace_inserts_four_spaces [of atom_line False] h by blast
  have "delete_at 6 (delete_at 17 (delete_at 40 (delete_at 49 (add_whitespace atom_line))))
        = atom_line"
    using c unfolding n by simp
  with h w c show ?thesis by blast
qed

subsection \<open>The events of each stage\<close>

lemma setup_not_processing: "is_setup ev \<Longrightarrow> \<not> is_processing ev \<and> \<not> is_output ev \<and> \<not> is_run ev"
  by (cases ev) simp_all

lemma filter_setup:
  assumes "list_all is_setup t"
  shows "filter is_processing t = [] \<and> filter is_output t = [] \<and> filter is_run t = []"
  using assms by (induction t) (auto dest: setup_not_processing)

lemma open_usernames_setup: "list_all is_setup (snd (open_usernames env a))"
  by (simp add: open_usernames_def split: option.splits)

lemma open_userff_setup: "list_all is_setup (snd (open_userff env a))"
  by (simp add: open_userff_def split: option.splits)

lemma check_ff_setup: "list_all is_setup (snd (check_ff env a))"
  by (simp add: check_ff_def)

lemma check_ph_setup: "list_all is_setup (snd (check_ph env a))"
  by (simp add: check_ph_def)

lemma validate_setup: "list_all is_setup (snd (validate env a))"
  unfolding validate_def
  by (auto intro!: and_then_list_all open_usernames_setup open_userff_setup check_ff_setup check_ph_setup)

lemma ph_calc_setup_setup: "list_all is_setup (snd (ph_calc_setup a))"
  by (simp add: ph_calc_setup_def split: option.splits)

lemma open_ligand_setup: "list_all is_setup (snd (open_ligand env a))"
  by (simp add: open_ligand_def split: option.splits)

lemma check_neutral_setup: "list_all is_setup (snd (check_neutral a))"
  by (simp add: check_neutral_def)

lemma configure_setup: "list_all is_setup (snd (configure env a))"
  unfolding configure_def Let_def
  by (intro and_then_list_all validate_setup ph_calc_setup_setup open_ligand_setup check_neutral_setup) simp_all

lemma and_then_fst_Inr:
  "fst (and_then m f) = Inr y \<Longrightarrow> \<exists>x. fst m = Inr x \<and> fst (f x) = Inr y"
  by (cases m) (auto simp: and_then_cases split: sum.splits)

lemma configure_result: "fst (configure env a) = Inr a1 \<Longrightarrow> a1 = force_modes a"
  unfolding configure_def Let_def
  by (auto dest!: and_then_fst_Inr)

lemma mainCommand_configure_fails:
  assumes "fst (configure env a) = Inl e"
  shows "mainCommand env a = (Inl e, snd (configure env a))"
  using assms by (simp add: mainCommand_def and_then_cases)

lemma mainCommand_configured:
  assumes "fst (configure env a) = Inr a1"
  shows "mainCommand env a =
     (let pdblist = fst (readPDB env (getPDBFile env (input_pdb a1)));
          errlist = snd (readPDB env (getPDBFile env (input_pdb a1)));
          a3 = prepare (a1\<lparr>isCIF := False\<rparr>);
          rest = and_then (check_parsed env (a1\<lparr>isCIF := False\<rparr>) pdblist errlist) (\<lambda>_.
                 and_then (run_stage env pdblist a3) (\<lambda>res.
                 and_then (write_output env a3 res) (\<lambda>_.
                 apbs_stage env a3)))
      in (fst rest,
          snd (configure env a) @ [GetPDBFile (input_pdb a1), ReadPDB] @ snd rest))"
  using assms
  by (simp add: mainCommand_def read_structure_pdb Let_def and_then_cases [of "configure env a"])

lemma run_stage_events:
  "list_all (\<lambda>ev. is_run ev \<longrightarrow> ev = RunPDB2PQR a) (snd (run_stage env pdblist a))"
  by (simp add: run_stage_def split: sum.splits run_exn.splits)

lemma write_output_events:
  "list_all (\<lambda>ev. \<not> is_run ev) (snd (write_output env a res))"
  by (auto simp add: write_output_def list_all_iff)

lemma apbs_stage_events: "list_all (\<lambda>ev. \<not> is_run ev) (snd (apbs_stage env a))"
  by (simp add: apbs_stage_def split: option.splits)

lemma check_parsed_events: "snd (check_parsed env a pdblist errlist) = []"
  by (simp add: check_parsed_def)

lemma list_all_weaken: "list_all P xs \<Longrightarrow> (\<And>x. P x \<Longrightarrow> Q x) \<Longrightarrow> list_all Q xs"
  by (auto simp: list_all_iff)

lemma run_event_args:
  assumes "RunPDB2PQR a' \<in> set (snd (mainCommand env a))"
  shows "a' = prepare ((force_modes a)\<lparr>isCIF := False\<rparr>)"
proof (cases "fst (configure env a)")
  case (Inl e)
  then have "snd (mainCommand env a) = snd (configure env a)"
    by (simp add: mainCommand_configure_fails)
  with assms configure_setup [of env a] have "is_setup (RunPDB2PQR a')"
    by (auto simp: list_all_iff)
  then show ?thesis by simp
next
  case (Inr a1)
  then have a1: "a1 = force_modes a" by (rule configure_result)
  let ?Q = "\<lambda>ev. is_run ev \<longrightarrow> ev = RunPDB2PQR (prepare (a1\<lparr>isCIF := False\<rparr>))"
  have s: "list_all ?Q (snd (configure env a))"
    using configure_setup [of env a] by (rule list_all_weaken) (auto dest: setup_not_processing)
  have w: "\<And>res. list_all ?Q (snd (write_output env (prepare (a1\<lparr>isCIF := False\<rparr>)) res))"
    using write_output_events by (rule list_all_weaken) simp
  have b: "list_all ?Q (snd (apbs_stage env (prepare (a1\<lparr>isCIF := False\<rparr>))))"
    using apbs_stage_events by (rule list_all_weaken) simp
  have "list_all ?Q (snd (mainCommand env a))"
    unfolding mainCommand_configured [OF Inr] Let_def
    using s
    by (auto intro!: and_then_list_all run_stage_events w b simp: check_parsed_events)
  with assms have "RunPDB2PQR a' = RunPDB2PQR (prepare (a1\<lparr>isCIF := False\<rparr>))"
    by (auto simp: list_all_iff)
  with a1 show ?thesis by simp
qed

subsection \<open>Evaluation on the example inputs\<close>

lemmas stage_defs = mainCommand_def configure_def validate_def force_modes_def
  open_usernames_def open_userff_def check_ff_def check_ph_def ph_calc_setup_def
  open_ligand_def check_neutral_def ff_is_parse_def read_structure_pdb check_parsed_def
  prepare_def run_stage_def write_output_def apbs_stage_def

lemmas example_defs = example_env_def example_args_def example_results_def

lemma lower_parse: "lower ''parse'' = ''parse''"
  by (simp add: lower_def lower_char_def)

lemma write_atom_line: "write_line ws cif atom_line = (if ws then [add_whitespace atom_line] else [atom_line])"
  by (simp add: write_line_def slice_def atom_line_def)

lemma write_ter_line: "write_line ws False ter_line = (if ws then [] else [ter_line])"
  by (simp add: write_line_def slice_def ter_line_def)

subsection \<open>The modes that switch debumping and optimization off\<close>

text \<open>
  Claim C8. When assign-only or clean mode is requested, every call of the pipeline
  receives a namespace in which \<open>debump\<close> and \<open>opt\<close> are both off, whatever values
  the caller supplied for them.
\<close>

theorem modes_disable_debump_and_opt:
  assumes "assign_only a \<or> clean a"
    and "RunPDB2PQR a' \<in> set (snd (mainCommand env a))"
  shows "\<not> debump a' \<and> \<not> opt a'"
  using assms(1) run_event_args [OF assms(2)]
  by (auto simp: force_modes_def prepare_def)

theorem modes_disable_debump_and_opt_witness:
  "assign_only (example_args\<lparr>assign_only := True\<rparr>) \<and>
   debump (example_args\<lparr>assign_only := True\<rparr>) \<and>
   opt (example_args\<lparr>assign_only := True\<rparr>) \<and>
   RunPDB2PQR (example_args\<lparr>assign_only := True, debump := False, opt := False,
                 outname := Some ''1abc.pqr'', active_extensions := Some []\<rparr>)
     \<in> set (snd (mainCommand example_env (example_args\<lparr>assign_only := True\<rparr>))) \<and>
   \<not> debump (example_args\<lparr>assign_only := True, debump := False, opt := False,
                 outname := Some ''1abc.pqr'', active_extensions := Some []\<rparr>) \<and>
   \<not> opt (example_args\<lparr>assign_only := True, debump := False, opt := False,
                 outname := Some ''1abc.pqr'', active_extensions := Some []\<rparr>)"
proof -
  let ?a = "example_args\<lparr>assign_only := True\<rparr>"
  let ?a' = "example_args\<lparr>assign_only := True, debump := False, opt := False,
                 outname := Some ''1abc.pqr'', active_extensions := Some []\<rparr>"
  have m: "assign_only ?a \<or> clean ?a"
    by (simp add: example_defs)
  have r: "RunPDB2PQR ?a' \<in> set (snd (mainCommand example_env ?a))"
    by (simp add: stage_defs example_defs lower_parse)
  from modes_disable_debump_and_opt [OF m r] r show ?thesis
    by (simp add: example_defs)
qed

subsection \<open>A fatal error of the pipeline\<close>

text \<open>
  Claim C7. In a run that reaches the pipeline (the configuration passes, the structure
  is read, the check of the parsed lists passes) and in which the pipeline raises
  PDB2PQRError, the driver ends with that one error, the pipeline has been called exactly
  once, and the output file has been neither opened nor written: the whole trace is the
  events of the earlier stages, the call and the log of the error.
\<close>

theorem pipeline_error_ends_run:
  assumes c: "configure env a = (Inr a1, t1)"
    and r: "read_structure env a1 = (Inr (pdblist, errlist, a2), t2)"
    and p: "check_parsed env a2 pdblist errlist = (Inr (), t3)"
    and x: "runPDB2PQR env pdblist (prepare a2) = Inl (PDB2PQR_exn m)"
  shows "mainCommand env a =
           (Inl (PDB2PQRError m), t1 @ t2 @ t3 @ [RunPDB2PQR (prepare a2), LogError m]) \<and>
         length (filter is_run (snd (mainCommand env a))) = 1 \<and>
         filter is_output (snd (mainCommand env a)) = []"
proof -
  have m: "mainCommand env a =
           (Inl (PDB2PQRError m), t1 @ t2 @ t3 @ [RunPDB2PQR (prepare a2), LogError m])"
    by (simp add: mainCommand_def c r p run_stage_def x)
  have "list_all is_setup t1"
    using configure_setup [of env a] c by simp
  then have t1: "filter is_run t1 = []" "filter is_output t1 = []"
    using filter_setup by blast+
  have t2: "t2 = [GetPDBFile (input_pdb a1), ReadPDB]"
    using r by (simp add: read_structure_pdb)
  have t3: "t3 = []"
    using p check_parsed_events [of env a2 pdblist errlist] by simp
  show ?thesis
    unfolding m by (simp add: t1 t2 t3)
qed

theorem pipeline_error_ends_run_witness:
  "mainCommand (example_env\<lparr>runPDB2PQR := \<lambda>pdblist a. Inl (PDB2PQR_exn ''No heavy atoms'')\<rparr>)
     example_args =
     (Inl (PDB2PQRError ''No heavy atoms''),
      [LogDebug, LogInfo, GetFFfile (Some ''parse''), GetPDBFile ''1abc.pdb'', ReadPDB,
       RunPDB2PQR (example_args\<lparr>outname := Some ''1abc.pqr'', active_extensions := Some []\<rparr>),
       LogError ''No heavy atoms''])"
proof -
  let ?env = "example_env\<lparr>runPDB2PQR := \<lambda>pdblist a. Inl (PDB2PQR_exn ''No heavy atoms'')\<rparr>"
  have c: "configure ?env example_args =
           (Inr example_args, [LogDebug, LogInfo, GetFFfile (Some ''parse'')])"
    by (simp add: stage_defs example_defs)
  have r: "read_structure ?env example_args =
           (Inr ([''ATOM''], [], example_args), [GetPDBFile ''1abc.pdb'', ReadPDB])"
    by (simp add: read_structure_pdb example_defs)
  have p: "check_parsed ?env example_args [''ATOM''] [] = (Inr (), [])"
    by (simp add: check_parsed_def)
  have x: "runPDB2PQR ?env [''ATOM''] (prepare example_args) =
           Inl (PDB2PQR_exn ''No heavy atoms'')"
    by simp
  from pipeline_error_ends_run [OF c r p x] show ?thesis
    by (simp add: prepare_def example_args_def)
qed

subsection \<open>The input format\<close>

text \<open>
  Claim C4. The source compares \<open>path.suffix.lower()\<close> with \<open>"cif"\<close>, but a suffix
  carries its leading dot (lemma \<open>suffix_never_cif\<close>), so the comparison is false for
  every path. On the input \<open>1abc.cif\<close> the lowered suffix is \<open>.cif\<close>, the file is
  read by the PDB reader, and the pipeline runs with \<open>isCIF\<close> off.
\<close>

theorem cif_extension_read_as_pdb:
  "lower (path_suffix ''1abc.cif'') = ''.cif'' \<and>
   mainCommand example_env (example_args\<lparr>input_pdb := ''1abc.cif''\<rparr>) =
     (Inr (),
      [LogDebug, LogInfo, GetFFfile (Some ''parse''), GetPDBFile ''1abc.cif'', ReadPDB,
       RunPDB2PQR (example_args\<lparr>input_pdb := ''1abc.cif'', isCIF := False,
                     outname := Some ''1abc.pqr'', active_extensions := Some []\<rparr>),
       OpenWrite ''1abc.pqr'', Write (''REMARK'' @ [CHR 0x0A]), Write atom_line,
       Write ter_line, Close])"
proof -
  have "path_suffix ''1abc.cif'' = ''.cif''"
    by (simp add: path_suffix_def path_name_def)
  then have "lower (path_suffix ''1abc.cif'') = ''.cif''"
    by (simp add: lower_def lower_char_def)
  then show ?thesis
    by (simp add: stage_defs example_defs lower_parse write_atom_line write_ter_line)
qed

subsection \<open>Per-record errors\<close>

text \<open>A non-empty error list always ends in the NameError, whatever was parsed.\<close>

lemma errors_always_raise:
  "errlist \<noteq> [] \<Longrightarrow>
   check_parsed env a pdblist errlist = (Inl (NameError ''isCIF''), [])"
  by (simp add: check_parsed_def)

text \<open>
  Claim C5. With one parsed record and one per-record error, the driver raises NameError
  on the unbound name \<open>isCIF\<close> of line 106: no warning is logged and the pipeline is
  not run.
\<close>

theorem per_record_errors_raise_name_error:
  "mainCommand (example_env\<lparr>readPDB := \<lambda>f. ([''ATOM''], [''HETATM''])\<rparr>) example_args =
     (Inl (NameError ''isCIF''),
      [LogDebug, LogInfo, GetFFfile (Some ''parse''), GetPDBFile ''1abc.pdb'', ReadPDB])"
  by (simp add: stage_defs example_defs lower_parse)

subsection \<open>Chain terminators in the output\<close>

text \<open>
  With the whitespace option on, a line that begins with \<open>TER\<close> is never written;
  with the option off and \<open>isCIF\<close> off, every line is written as it is.
\<close>

lemma ter_dropped_with_whitespace:
  assumes "slice 0 3 line = ''TER''"
  shows "write_line True cif line = []"
proof -
  have t: "take 3 line = ''TER''"
    using assms by (simp add: slice_def)
  have a: "take 4 line \<noteq> ''ATOM''"
  proof
    assume "take 4 line = ''ATOM''"
    then have "take 3 (take 4 line) = ''ATO''" by simp
    then have "take 3 line = ''ATO''" by simp
    with t show False by simp
  qed
  have h: "take 6 line \<noteq> ''HETATM''"
  proof
    assume "take 6 line = ''HETATM''"
    then have "take 3 (take 6 line) = ''HET''" by simp
    then have "take 3 line = ''HET''" by simp
    with t show False by simp
  qed
  from a h show ?thesis
    by (simp add: write_line_def slice_def)
qed

lemma all_lines_written_without_whitespace: "write_line False False line = [line]"
  by (simp add: write_line_def)

text \<open>
  Claim C6. The pipeline returns an atom line and a TER line for a PDB input. With the
  whitespace option on, only the atom line is written: the TER line matches none of the
  branches of lines 138 to 145 that write. With the option off, both lines are written.
\<close>

theorem whitespace_drops_ter_lines:
  "written (snd (mainCommand example_env (example_args\<lparr>whitespace := True\<rparr>))) =
     [''REMARK'' @ [CHR 0x0A], add_whitespace atom_line] \<and>
   written (snd (mainCommand example_env example_args)) =
     [''REMARK'' @ [CHR 0x0A], atom_line, ter_line]"
  by (simp add: stage_defs example_defs lower_parse write_atom_line write_ter_line)

subsection \<open>Results and events of the stages\<close>

lemma and_then_keeps_events: "set (snd m) \<subseteq> set (snd (and_then m f))"
  by (cases m) (auto simp: and_then_cases split: sum.splits)

lemma and_then_fails_later:
  assumes "\<And>x. \<exists>e. fst (f x) = Inl e"
  shows "\<exists>e. fst (and_then m f) = Inl e"
proof (cases "fst m")
  case (Inl e)
  then show ?thesis by (simp add: and_then_cases)
next
  case (Inr x)
  with assms [of x] show ?thesis by (auto simp add: and_then_cases)
qed

lemma run_stage_no_parser_error: "fst (run_stage env pdblist a) \<noteq> Inl (ParserError s)"
  by (simp add: run_stage_def split: sum.splits run_exn.splits)

lemma write_output_no_parser_error: "fst (write_output env a res) \<noteq> Inl (ParserError s)"
  by (simp add: write_output_def)

lemma apbs_stage_no_parser_error: "fst (apbs_stage env a) \<noteq> Inl (ParserError s)"
  by (simp add: apbs_stage_def split: option.splits)

lemma pipeline_no_parser_error:
  "fst (and_then (run_stage env pdblist a) (\<lambda>res.
        and_then (write_output env a res) (\<lambda>_. apbs_stage env a))) \<noteq> Inl (ParserError s)"
  by (intro and_then_fst_neq run_stage_no_parser_error write_output_no_parser_error
      apbs_stage_no_parser_error)

lemma run_stage_first_event: "RunPDB2PQR a \<in> set (snd (run_stage env pdblist a))"
  by (simp add: run_stage_def split: sum.splits run_exn.splits)

lemma force_modes_fields [simp]:
  "clean (force_modes a) = clean a" "usernames (force_modes a) = usernames a"
  "userff (force_modes a) = userff a" "ff (force_modes a) = ff a" "ph (force_modes a) = ph a"
  "input_pdb (force_modes a) = input_pdb a"
  by (simp_all add: force_modes_def)

lemma open_usernames_force_modes: "open_usernames env (force_modes a) = open_usernames env a"
  by (simp add: open_usernames_def)

lemma open_userff_force_modes: "open_userff env (force_modes a) = open_userff env a"
  by (simp add: open_userff_def split: option.splits)

lemma check_ff_force_modes: "check_ff env (force_modes a) = check_ff env a"
  by (simp add: check_ff_def)

lemma check_ph_force_modes: "check_ph env (force_modes a) = check_ph env a"
  by (simp add: check_ph_def)

lemma validate_force_modes: "validate env (force_modes a) = validate env a"
  by (simp add: validate_def open_usernames_force_modes open_userff_force_modes
      check_ff_force_modes check_ph_force_modes)

lemma configure_validate_fails:
  assumes "fst (validate env a) = Inl e"
  shows "configure env a = (Inl e, [LogDebug, LogInfo] @ snd (validate env a))"
  using assms by (simp add: configure_def validate_force_modes and_then_cases)

subsection \<open>The check of the parsed lists\<close>

text \<open>
  The check of lines 102 and 103. In a run whose configuration passes and whose reader
  returns the lists \<open>pdblist\<close> and \<open>errlist\<close>, the driver ends with the error of
  line 103 exactly when both lists are empty, and then nothing happens after the read;
  with at least one record and no per-record error the pipeline is called.
\<close>

lemma fatal_iff_nothing_read:
  assumes c: "configure env a = (Inr a1, t1)"
    and r: "read_structure env a1 = (Inr (pdblist, errlist, a2), t2)"
  shows "(fst (mainCommand env a) =
            Inl (ParserError (''Unable to find file '' @ str_path env (input_pdb a) @ ''!'')))
         = (pdblist = [] \<and> errlist = []) \<and>
         (pdblist = [] \<and> errlist = [] \<longrightarrow> snd (mainCommand env a) = t1 @ t2) \<and>
         (pdblist \<noteq> [] \<and> errlist = [] \<longrightarrow>
            RunPDB2PQR (prepare a2) \<in> set (snd (mainCommand env a)))"
proof -
  let ?rest = "and_then (run_stage env pdblist (prepare a2)) (\<lambda>res.
               and_then (write_output env (prepare a2) res) (\<lambda>_. apbs_stage env (prepare a2)))"
  have a1: "a1 = force_modes a"
    using c configure_result [of env a a1] by simp
  have a2: "a2 = a1\<lparr>isCIF := False\<rparr>"
    using r by (simp add: read_structure_pdb)
  have p: "input_pdb a2 = input_pdb a"
    by (simp add: a1 a2)
  have m: "mainCommand env a =
           (case fst (check_parsed env a2 pdblist errlist) of
              Inl e \<Rightarrow> (Inl e, t1 @ t2)
            | Inr u \<Rightarrow> (fst ?rest, t1 @ t2 @ snd ?rest))"
    by (simp add: mainCommand_def c r and_then_cases check_parsed_events split: sum.splits)
  show ?thesis
  proof (cases "pdblist = [] \<and> errlist = []")
    case True
    then show ?thesis
      unfolding m by (simp add: check_parsed_def p)
  next
    case False
    note nonempty = this
    show ?thesis
    proof (cases "errlist = []")
      case True
      with nonempty have k: "fst (check_parsed env a2 pdblist errlist) = Inr ()"
        by (simp add: check_parsed_def)
      have "RunPDB2PQR (prepare a2) \<in> set (snd ?rest)"
        using and_then_keeps_events run_stage_first_event by blast
      with nonempty True pipeline_no_parser_error [of env pdblist "prepare a2"] show ?thesis
        unfolding m k by simp
    next
      case False
      then have "fst (check_parsed env a2 pdblist errlist) = Inl (NameError ''isCIF'')"
        by (simp add: check_parsed_def)
      with False show ?thesis
        unfolding m by simp
    qed
  qed
qed

lemma fatal_iff_nothing_read_example:
  "fst (mainCommand (example_env\<lparr>readPDB := \<lambda>f. ([], [])\<rparr>) example_args) =
     Inl (ParserError ''Unable to find file 1abc.pdb!'') \<and>
   snd (mainCommand (example_env\<lparr>readPDB := \<lambda>f. ([], [])\<rparr>) example_args) =
     [LogDebug, LogInfo, GetFFfile (Some ''parse''), GetPDBFile ''1abc.pdb'', ReadPDB] \<and>
   fst (mainCommand example_env example_args) \<noteq>
     Inl (ParserError ''Unable to find file 1abc.pdb!'') \<and>
   RunPDB2PQR (prepare example_args) \<in> set (snd (mainCommand example_env example_args))"
proof -
  let ?env = "example_env\<lparr>readPDB := \<lambda>f. ([], [])\<rparr>"
  have c0: "configure ?env example_args =
           (Inr example_args, [LogDebug, LogInfo, GetFFfile (Some ''parse'')])"
    by (simp add: stage_defs example_defs)
  have r0: "read_structure ?env example_args =
           (Inr ([], [], example_args), [GetPDBFile ''1abc.pdb'', ReadPDB])"
    by (simp add: read_structure_pdb example_defs)
  have c1: "configure example_env example_args =
           (Inr example_args, [LogDebug, LogInfo, GetFFfile (Some ''parse'')])"
    by (simp add: stage_defs example_defs)
  have r1: "read_structure example_env example_args =
           (Inr ([''ATOM''], [], example_args), [GetPDBFile ''1abc.pdb'', ReadPDB])"
    by (simp add: read_structure_pdb example_defs)
  have p: "str_path ?env (input_pdb example_args) = ''1abc.pdb''"
       "str_path example_env (input_pdb example_args) = ''1abc.pdb''"
    by (simp_all add: example_defs)
  from fatal_iff_nothing_read [OF c0 r0] fatal_iff_nothing_read [OF c1 r1] show ?thesis
    unfolding p by simp
qed

text \<open>
  The pipeline is reached exactly when at least one record was parsed and the error list
  is empty: a non-empty error list stops the run on line 106, whatever was parsed.
\<close>

lemma stops_at_parse_iff:
  assumes c: "configure env a = (Inr a1, t1)"
    and r: "read_structure env a1 = (Inr (pdblist, errlist, a2), t2)"
  shows "(filter is_run (snd (mainCommand env a)) = []) = (pdblist = [] \<or> errlist \<noteq> [])"
proof -
  let ?rest = "and_then (run_stage env pdblist (prepare a2)) (\<lambda>res.
               and_then (write_output env (prepare a2) res) (\<lambda>_. apbs_stage env (prepare a2)))"
  have "list_all is_setup t1"
    using configure_setup [of env a] c by simp
  then have t1: "filter is_run t1 = []"
    using filter_setup by blast
  have t2: "t2 = [GetPDBFile (input_pdb a1), ReadPDB]"
    using r by (simp add: read_structure_pdb)
  have m: "mainCommand env a =
           (case fst (check_parsed env a2 pdblist errlist) of
              Inl e \<Rightarrow> (Inl e, t1 @ t2)
            | Inr u \<Rightarrow> (fst ?rest, t1 @ t2 @ snd ?rest))"
    by (simp add: mainCommand_def c r and_then_cases check_parsed_events split: sum.splits)
  show ?thesis
  proof (cases "pdblist = [] \<or> errlist \<noteq> []")
    case True
    then have "\<exists>e. fst (check_parsed env a2 pdblist errlist) = Inl e"
      by (cases "errlist = []") (simp_all add: check_parsed_def)
    then obtain e where "fst (check_parsed env a2 pdblist errlist) = Inl e" ..
    with True show ?thesis
      unfolding m by (simp add: t1 t2)
  next
    case False
    then have k: "fst (check_parsed env a2 pdblist errlist) = Inr ()"
      by (simp add: check_parsed_def)
    have "RunPDB2PQR (prepare a2) \<in> set (snd ?rest)"
      using and_then_keeps_events run_stage_first_event by blast
    moreover have "is_run (RunPDB2PQR (prepare a2))"
      by simp
    ultimately have "filter is_run (snd ?rest) \<noteq> []"
      unfolding filter_empty_conv by blast
    with False show ?thesis
      unfolding m k by simp
  qed
qed

text \<open>
  Claim C1. The reader returns two parsed records and one per-record error. The check of
  line 102 passes, and the driver then raises NameError on the unbound name \<open>isCIF\<close>
  of line 106: the run aborts although records were parsed, and the pipeline is never
  called.
\<close>

theorem records_with_errors_never_reach_pipeline:
  "mainCommand (example_env\<lparr>readPDB := \<lambda>f. ([''ATOM'', ''ATOM''], [''ATOM''])\<rparr>)
     example_args =
     (Inl (NameError ''isCIF''),
      [LogDebug, LogInfo, GetFFfile (Some ''parse''), GetPDBFile ''1abc.pdb'', ReadPDB]) \<and>
   filter is_run
     (snd (mainCommand (example_env\<lparr>readPDB := \<lambda>f. ([''ATOM'', ''ATOM''], [''ATOM''])\<rparr>)
        example_args)) = []"
  by (simp add: stage_defs example_defs lower_parse)

subsection \<open>The pH check\<close>

lemma open_usernames_not_parser: "fst (open_usernames env a) \<noteq> Inl (ParserError s)"
  by (simp add: open_usernames_def split: option.splits)

lemma open_userff_not_ph:
  "fst (open_userff env a) \<noteq> Inl (ParserError (CHR ''S'' # s))"
  by (simp add: open_userff_def split: option.splits)

lemma check_ff_not_ph: "fst (check_ff env a) \<noteq> Inl (ParserError (CHR ''S'' # s))"
  by (simp add: check_ff_def)

lemma check_ph_inside: "0 \<le> ph a \<Longrightarrow> ph a \<le> 14 \<Longrightarrow> check_ph env a = (Inr (), [])"
  by (simp add: check_ph_def)

lemma check_ph_outside:
  "ph a < 0 \<or> 14 < ph a \<Longrightarrow>
   check_ph env a =
     (Inl (ParserError (''Specified pH ('' @ str_float env (ph a) @
             '') is outside the range [1, 14] of this program'')), [])"
  by (simp add: check_ph_def)

lemma ph_calc_setup_not_ph: "fst (ph_calc_setup a) \<noteq> Inl (ParserError (CHR ''S'' # s))"
  by (simp add: ph_calc_setup_def split: option.splits)

lemma open_ligand_not_ph: "fst (open_ligand env a) \<noteq> Inl (ParserError (CHR ''S'' # s))"
  by (simp add: open_ligand_def split: option.splits)

lemma check_neutral_not_ph: "fst (check_neutral a) \<noteq> Inl (ParserError (CHR ''S'' # s))"
  by (simp add: check_neutral_def)

lemma check_parsed_not_ph:
  "fst (check_parsed env a pdblist errlist) \<noteq> Inl (ParserError (CHR ''S'' # s))"
  by (simp add: check_parsed_def)

lemma validate_not_ph:
  assumes "clean a \<or> (0 \<le> ph a \<and> ph a \<le> 14)"
  shows "fst (validate env a) \<noteq> Inl (ParserError (CHR ''S'' # s))"
proof (cases "clean a")
  case True
  then show ?thesis by (simp add: validate_def)
next
  case False
  with assms have "check_ph env a = (Inr (), [])"
    by (simp add: check_ph_inside)
  then have "fst (and_then (open_usernames env a) (\<lambda>_.
               and_then (open_userff env a) (\<lambda>_.
               and_then (check_ff env a) (\<lambda>_. check_ph env a))))
             \<noteq> Inl (ParserError (CHR ''S'' # s))"
    by (intro and_then_fst_neq open_usernames_not_parser open_userff_not_ph check_ff_not_ph)
      simp
  with False show ?thesis
    by (simp add: validate_def)
qed

lemma configure_not_ph:
  assumes "clean a \<or> (0 \<le> ph a \<and> ph a \<le> 14)"
  shows "fst (configure env a) \<noteq> Inl (ParserError (CHR ''S'' # s))"
proof -
  have "fst (validate env (force_modes a)) \<noteq> Inl (ParserError (CHR ''S'' # s))"
    unfolding validate_force_modes using assms by (rule validate_not_ph)
  then show ?thesis
    unfolding configure_def Let_def
    by (intro and_then_fst_neq ph_calc_setup_not_ph open_ligand_not_ph check_neutral_not_ph)
      simp_all
qed

lemma mainCommand_not_ph:
  assumes "clean a \<or> (0 \<le> ph a \<and> ph a \<le> 14)"
  shows "fst (mainCommand env a) \<noteq> Inl (ParserError (CHR ''S'' # s))"
proof (cases "fst (configure env a)")
  case (Inl e)
  with configure_not_ph [OF assms, of env s] show ?thesis
    by (simp add: mainCommand_configure_fails)
next
  case (Inr a1)
  show ?thesis
    unfolding mainCommand_configured [OF Inr] Let_def fst_conv
    by (intro and_then_fst_neq check_parsed_not_ph run_stage_no_parser_error
        write_output_no_parser_error apbs_stage_no_parser_error)
qed

lemma validate_fails_no_processing:
  assumes "fst (validate env a) = Inl e"
  shows "fst (mainCommand env a) = Inl e"
    and "snd (mainCommand env a) = [LogDebug, LogInfo] @ snd (validate env a)"
    and "filter is_processing (snd (mainCommand env a)) = []"
proof -
  have c: "configure env a = (Inl e, [LogDebug, LogInfo] @ snd (validate env a))"
    using assms by (rule configure_validate_fails)
  then show "fst (mainCommand env a) = Inl e"
    and s: "snd (mainCommand env a) = [LogDebug, LogInfo] @ snd (validate env a)"
    by (simp_all add: mainCommand_def)
  show "filter is_processing (snd (mainCommand env a)) = []"
    unfolding s using validate_setup [of env a] filter_setup by simp
qed

text \<open>
  Claim C2, as the code has it. Outside clean mode a pH below 0 or above 14 ends the run
  with an error before any structure processing; the error is the pH message when the
  three checks in front of it pass (the user files open, \<open>--usernames\<close> accompanies
  \<open>--userff\<close>, the force field resolves). In clean mode, and for a pH from 0 to 14,
  the pH error is never raised.
\<close>

theorem ph_checked_outside_clean_mode:
  "(\<not> clean a \<and> (ph a < 0 \<or> 14 < ph a) \<longrightarrow>
      (\<exists>e. fst (mainCommand env a) = Inl e) \<and>
      filter is_processing (snd (mainCommand env a)) = [] \<and>
      (fst (open_usernames env a) = Inr () \<and> fst (open_userff env a) = Inr () \<and>
       fst (check_ff env a) = Inr () \<longrightarrow>
         fst (mainCommand env a) =
           Inl (ParserError (''Specified pH ('' @ str_float env (ph a) @
                  '') is outside the range [1, 14] of this program'')))) \<and>
   (clean a \<or> (0 \<le> ph a \<and> ph a \<le> 14) \<longrightarrow>
      fst (mainCommand env a) \<noteq>
        Inl (ParserError (''Specified pH ('' @ str_float env (ph a) @
               '') is outside the range [1, 14] of this program'')))"
proof (intro conjI impI)
  assume h: "\<not> clean a \<and> (ph a < 0 \<or> 14 < ph a)"
  then have p: "check_ph env a =
     (Inl (ParserError (''Specified pH ('' @ str_float env (ph a) @
             '') is outside the range [1, 14] of this program'')), [])"
    by (simp add: check_ph_outside)
  have "\<exists>e. fst (validate env a) = Inl e"
    using h unfolding validate_def by (auto intro!: and_then_fails_later simp: p)
  then obtain e where e: "fst (validate env a) = Inl e" ..
  from validate_fails_no_processing [OF e]
  show "\<exists>e. fst (mainCommand env a) = Inl e"
    and "filter is_processing (snd (mainCommand env a)) = []"
    by auto
  assume "fst (open_usernames env a) = Inr () \<and> fst (open_userff env a) = Inr () \<and>
       fst (check_ff env a) = Inr ()"
  then have "fst (validate env a) =
     Inl (ParserError (''Specified pH ('' @ str_float env (ph a) @
             '') is outside the range [1, 14] of this program''))"
    using h by (simp add: validate_def and_then_cases p)
  from validate_fails_no_processing(1) [OF this]
  show "fst (mainCommand env a) =
           Inl (ParserError (''Specified pH ('' @ str_float env (ph a) @
                  '') is outside the range [1, 14] of this program''))" .
next
  assume "clean a \<or> (0 \<le> ph a \<and> ph a \<le> 14)"
  from mainCommand_not_ph [OF this]
  show "fst (mainCommand env a) \<noteq>
        Inl (ParserError (''Specified pH ('' @ str_float env (ph a) @
               '') is outside the range [1, 14] of this program''))"
    by simp
qed

theorem ph_checked_outside_clean_mode_witness:
  "fst (mainCommand example_env (example_args\<lparr>ph := 15\<rparr>)) =
     Inl (ParserError ''Specified pH (15.0) is outside the range [1, 14] of this program'') \<and>
   filter is_processing (snd (mainCommand example_env (example_args\<lparr>ph := 15\<rparr>))) = [] \<and>
   fst (mainCommand example_env example_args) \<noteq>
     Inl (ParserError ''Specified pH (15.0) is outside the range [1, 14] of this program'')"
proof -
  let ?a = "example_args\<lparr>ph := 15\<rparr>"
  have h: "\<not> clean ?a \<and> (ph ?a < 0 \<or> 14 < ph ?a)"
    by (simp add: example_defs)
  have k: "fst (open_usernames example_env ?a) = Inr () \<and>
           fst (open_userff example_env ?a) = Inr () \<and>
           fst (check_ff example_env ?a) = Inr ()"
    by (simp add: open_usernames_def open_userff_def check_ff_def example_defs)
  have i: "clean example_args \<or> (0 \<le> ph example_args \<and> ph example_args \<le> 14)"
    by (simp add: example_defs)
  have s: "str_float example_env x = ''15.0''" for x
    by (simp add: example_defs)
  from ph_checked_outside_clean_mode [of ?a example_env]
    ph_checked_outside_clean_mode [of example_args example_env] h k i
  show ?thesis
    unfolding s by simp
qed

text \<open>
  In clean mode the block of lines 51 to 63 is skipped: with a pH of 15 the structure is
  read, the pipeline runs and the output is written.
\<close>

theorem clean_mode_skips_ph_check_counterexample:
  "ph (example_args\<lparr>clean := True, ph := 15\<rparr>) = 15 \<and>
   mainCommand example_env (example_args\<lparr>clean := True, ph := 15\<rparr>) =
     (Inr (),
      [LogDebug, LogInfo, GetPDBFile ''1abc.pdb'', ReadPDB,
       RunPDB2PQR (example_args\<lparr>clean := True, debump := False, opt := False, ph := 15,
                     outname := Some ''1abc.pqr'', active_extensions := Some []\<rparr>),
       OpenWrite ''1abc.pqr'', Write (''REMARK'' @ [CHR 0x0A]), Write atom_line,
       Write ter_line, Close])"
  by (simp add: stage_defs example_defs lower_parse write_atom_line write_ter_line)

text \<open>
  Outside clean mode, with a pH below 0 or above 14, the error of the run is that of the
  first check of lines 52 to 63 that fails.
\<close>

lemma ph_error_is_first_failing_check:
  assumes "\<not> clean a" and "ph a < 0 \<or> 14 < ph a"
  shows "fst (mainCommand env a) =
     (case fst (open_usernames env a) of
        Inl e \<Rightarrow> Inl e
      | Inr _ \<Rightarrow>
         (case fst (open_userff env a) of
            Inl e \<Rightarrow> Inl e
          | Inr _ \<Rightarrow>
             (case fst (check_ff env a) of
                Inl e \<Rightarrow> Inl e
              | Inr _ \<Rightarrow>
                  Inl (ParserError (''Specified pH ('' @ str_float env (ph a) @
                         '') is outside the range [1, 14] of this program'')))))"
proof -
  let ?r = "case fst (open_usernames env a) of
        Inl e \<Rightarrow> e
      | Inr _ \<Rightarrow>
         (case fst (open_userff env a) of
            Inl e \<Rightarrow> e
          | Inr _ \<Rightarrow>
             (case fst (check_ff env a) of
                Inl e \<Rightarrow> e
              | Inr _ \<Rightarrow>
                  ParserError (''Specified pH ('' @ str_float env (ph a) @
                         '') is outside the range [1, 14] of this program'')))"
  have "fst (validate env a) = Inl ?r"
    using assms
    by (simp add: validate_def and_then_cases check_ph_outside split: sum.splits)
  from validate_fails_no_processing(1) [OF this] show ?thesis
    by (simp split: sum.splits)
qed

subsection \<open>The force-field check\<close>

lemma check_ff_unresolved:
  "getFFfile env (ff a) = [] \<Longrightarrow>
   check_ff env a =
     (Inl (ParserError (''Unable to load parameter file for forcefield '' @ str_opt (ff a))),
      [GetFFfile (ff a)])"
  by (simp add: check_ff_def)

lemma and_then_fst_Inr_events:
  "fst (and_then m f) = Inr y \<Longrightarrow>
   \<exists>x. fst m = Inr x \<and> fst (f x) = Inr y \<and> snd (and_then m f) = snd m @ snd (f x)"
  by (cases m) (auto simp: and_then_cases split: sum.splits)

lemma check_ff_event: "GetFFfile (ff a) \<in> set (snd (check_ff env a))"
  by (simp add: check_ff_def)

lemma validate_looks_up_ff:
  assumes "\<not> clean a" and "fst (validate env a) = Inr u"
  shows "GetFFfile (ff a) \<in> set (snd (validate env a))"
proof -
  let ?v3 = "and_then (check_ff env a) (\<lambda>_. check_ph env a)"
  let ?v2 = "and_then (open_userff env a) (\<lambda>_. ?v3)"
  have v: "validate env a = and_then (open_usernames env a) (\<lambda>_. ?v2)"
    using assms(1) by (simp add: validate_def)
  from assms(2) [unfolded v] obtain x where
    1: "fst ?v2 = Inr u"
      "snd (validate env a) = snd (open_usernames env a) @ snd ?v2"
    unfolding v by (auto dest: and_then_fst_Inr_events)
  from 1(1) obtain y where
    2: "fst ?v3 = Inr u" "snd ?v2 = snd (open_userff env a) @ snd ?v3"
    by (auto dest: and_then_fst_Inr_events)
  have "GetFFfile (ff a) \<in> set (snd ?v3)"
    using and_then_keeps_events check_ff_event by blast
  then show ?thesis
    by (simp add: 1(2) 2(2))
qed

lemma configure_looks_up_ff:
  assumes "\<not> clean a" and "fst (configure env a) = Inr a1"
  shows "GetFFfile (ff a) \<in> set (snd (configure env a))"
proof -
  let ?x = "and_then (validate env a) (\<lambda>_.
      and_then (ph_calc_setup (force_modes a)) (\<lambda>_.
      and_then (open_ligand env (force_modes a)) (\<lambda>_.
      and_then (check_neutral (force_modes a)) (\<lambda>_. (Inr (force_modes a), [])))))"
  have c: "configure env a = (fst ?x, [LogDebug, LogInfo] @ snd ?x)"
    by (simp add: configure_def validate_force_modes Let_def)
  with assms(2) have "fst ?x = Inr a1" by simp
  then obtain u where u: "fst (validate env a) = Inr u"
    by (auto dest: and_then_fst_Inr_events)
  have "set (snd (validate env a)) \<subseteq> set (snd ?x)"
    by (rule and_then_keeps_events)
  with validate_looks_up_ff [OF assms(1) u] show ?thesis
    unfolding c by auto
qed

lemma prefix_of_split:
  assumes "xs @ ys = t @ ev # t'" and "list_all P xs" and "\<not> P ev"
  shows "\<exists>u. t = xs @ u"
proof -
  from assms(1) obtain us where
    "(xs = t @ us \<and> us @ ys = ev # t') \<or> (xs @ us = t \<and> ys = us @ ev # t')"
    by (auto simp: append_eq_append_conv2)
  then show ?thesis
  proof
    assume h: "xs = t @ us \<and> us @ ys = ev # t'"
    show ?thesis
    proof (cases us)
      case Nil
      with h show ?thesis by simp
    next
      case (Cons u us')
      with h have "ev \<in> set xs" by simp
      with assms(2,3) show ?thesis by (simp add: list_all_iff)
    qed
  next
    assume "xs @ us = t \<and> ys = us @ ev # t'"
    then show ?thesis by auto
  qed
qed

lemma ff_lookup_precedes_processing:
  assumes nc: "\<not> clean a"
    and tr: "snd (mainCommand env a) = t @ ev # t'"
    and ev: "is_processing ev"
  shows "GetFFfile (ff a) \<in> set t"
proof (cases "fst (configure env a)")
  case (Inl e)
  then have "snd (mainCommand env a) = snd (configure env a)"
    by (simp add: mainCommand_configure_fails)
  with tr configure_setup [of env a] have "is_setup ev"
    by (simp add: list_all_iff)
  with ev show ?thesis by (auto dest: setup_not_processing)
next
  case (Inr a1)
  from mainCommand_configured [OF Inr] obtain rest where
    "snd (mainCommand env a) = snd (configure env a) @ rest"
    by (simp add: Let_def)
  with tr have s: "snd (configure env a) @ rest = t @ ev # t'" by simp
  have n: "\<not> is_setup ev"
    using ev by (auto dest: setup_not_processing)
  from prefix_of_split [OF s configure_setup n]
  obtain u where "t = snd (configure env a) @ u" ..
  with configure_looks_up_ff [OF nc Inr] show ?thesis by simp
qed

text \<open>
  Claim C3, as the code has it. Outside clean mode, a force field that does not resolve
  to a parameter file ends the run with an error before any structure processing; the
  error is the force-field message when the two checks in front of it pass (the user
  files open, \<open>--usernames\<close> accompanies \<open>--userff\<close>). And in every run outside
  clean mode the force-field lookup comes before the first event of structure processing.
\<close>

theorem forcefield_validated_outside_clean_mode:
  assumes "\<not> clean a"
  shows "(getFFfile env (ff a) = [] \<longrightarrow>
            (\<exists>e. fst (mainCommand env a) = Inl e) \<and>
            filter is_processing (snd (mainCommand env a)) = [] \<and>
            (fst (open_usernames env a) = Inr () \<and> fst (open_userff env a) = Inr () \<longrightarrow>
               mainCommand env a =
                 (Inl (ParserError (''Unable to load parameter file for forcefield '' @
                         str_opt (ff a))),
                  [LogDebug, LogInfo] @ snd (open_usernames env a) @
                  snd (open_userff env a) @ [GetFFfile (ff a)]))) \<and>
         (\<forall>t ev t'. snd (mainCommand env a) = t @ ev # t' \<and> is_processing ev \<longrightarrow>
            GetFFfile (ff a) \<in> set t)"
proof (intro conjI impI allI)
  assume f: "getFFfile env (ff a) = []"
  have "\<exists>e. fst (validate env a) = Inl e"
    using assms unfolding validate_def
    by (auto intro!: and_then_fails_later simp: check_ff_unresolved [OF f])
  then obtain e where e: "fst (validate env a) = Inl e" ..
  from validate_fails_no_processing [OF e]
  show "\<exists>e. fst (mainCommand env a) = Inl e"
    and "filter is_processing (snd (mainCommand env a)) = []"
    by auto
  assume k: "fst (open_usernames env a) = Inr () \<and> fst (open_userff env a) = Inr ()"
  have v: "validate env a =
     (Inl (ParserError (''Unable to load parameter file for forcefield '' @ str_opt (ff a))),
      snd (open_usernames env a) @ snd (open_userff env a) @ [GetFFfile (ff a)])"
    using assms k by (simp add: validate_def and_then_cases check_ff_unresolved [OF f])
  then have "fst (validate env a) =
     Inl (ParserError (''Unable to load parameter file for forcefield '' @ str_opt (ff a)))"
    by simp
  from validate_fails_no_processing(1,2) [OF this]
  show "mainCommand env a =
          (Inl (ParserError (''Unable to load parameter file for forcefield '' @
                  str_opt (ff a))),
           [LogDebug, LogInfo] @ snd (open_usernames env a) @
           snd (open_userff env a) @ [GetFFfile (ff a)])"
    by (simp add: v prod_eq_iff)
next
  fix t ev t'
  assume "snd (mainCommand env a) = t @ ev # t' \<and> is_processing ev"
  with assms show "GetFFfile (ff a) \<in> set t"
    using ff_lookup_precedes_processing by blast
qed

theorem forcefield_validated_outside_clean_mode_witness:
  "getFFfile example_env (ff (example_args\<lparr>ff := Some ''bogus''\<rparr>)) = [] \<and>
   mainCommand example_env (example_args\<lparr>ff := Some ''bogus''\<rparr>) =
     (Inl (ParserError ''Unable to load parameter file for forcefield bogus''),
      [LogDebug, LogInfo, GetFFfile (Some ''bogus'')]) \<and>
   snd (mainCommand example_env example_args) =
     [LogDebug, LogInfo, GetFFfile (Some ''parse'')] @ GetPDBFile ''1abc.pdb'' #
     [ReadPDB,
      RunPDB2PQR (example_args\<lparr>outname := Some ''1abc.pqr'', active_extensions := Some []\<rparr>),
      OpenWrite ''1abc.pqr'', Write (''REMARK'' @ [CHR 0x0A]), Write atom_line,
      Write ter_line, Close] \<and>
   GetFFfile (ff example_args) \<in> set [LogDebug, LogInfo, GetFFfile (Some ''parse'')]"
proof -
  let ?a = "example_args\<lparr>ff := Some ''bogus''\<rparr>"
  have n: "\<not> clean ?a" "\<not> clean example_args"
    by (simp_all add: example_defs)
  have f: "getFFfile example_env (ff ?a) = []"
    by (simp add: example_defs)
  have k: "fst (open_usernames example_env ?a) = Inr () \<and>
           fst (open_userff example_env ?a) = Inr ()"
    by (simp add: open_usernames_def open_userff_def example_defs)
  have e: "snd (open_usernames example_env ?a) = []" "snd (open_userff example_env ?a) = []"
      "str_opt (ff ?a) = ''bogus''" "ff ?a = Some ''bogus''"
    by (simp_all add: open_usernames_def open_userff_def str_opt_def example_defs)
  have t: "snd (mainCommand example_env example_args) =
     [LogDebug, LogInfo, GetFFfile (Some ''parse'')] @ GetPDBFile ''1abc.pdb'' #
     [ReadPDB,
      RunPDB2PQR (example_args\<lparr>outname := Some ''1abc.pqr'', active_extensions := Some []\<rparr>),
      OpenWrite ''1abc.pqr'', Write (''REMARK'' @ [CHR 0x0A]), Write atom_line,
      Write ter_line, Close]"
    by (simp add: stage_defs example_defs lower_parse write_atom_line write_ter_line)
  have p: "is_processing (GetPDBFile ''1abc.pdb'')"
    by simp
  from forcefield_validated_outside_clean_mode [OF n(1), of example_env] f k
  have "mainCommand example_env ?a =
     (Inl (ParserError ''Unable to load parameter file for forcefield bogus''),
      [LogDebug, LogInfo, GetFFfile (Some ''bogus'')])"
    by (simp add: e str_opt_def)
  moreover from forcefield_validated_outside_clean_mode [OF n(2), of example_env] t p
  have "GetFFfile (ff example_args) \<in> set [LogDebug, LogInfo, GetFFfile (Some ''parse'')]"
    by blast
  ultimately show ?thesis
    using f t by blast
qed

text \<open>
  In clean mode the force field is not looked up: with an identifier that does not
  resolve, the structure is read, the pipeline runs and the output is written.
\<close>

theorem clean_mode_skips_forcefield_check_counterexample:
  "getFFfile example_env (ff (example_args\<lparr>clean := True, ff := Some ''bogus''\<rparr>)) = [] \<and>
   mainCommand example_env (example_args\<lparr>clean := True, ff := Some ''bogus''\<rparr>) =
     (Inr (),
      [LogDebug, LogInfo, GetPDBFile ''1abc.pdb'', ReadPDB,
       RunPDB2PQR (example_args\<lparr>clean := True, debump := False, opt := False,
                     ff := Some ''bogus'', outname := Some ''1abc.pqr'',
                     active_extensions := Some []\<rparr>),
       OpenWrite ''1abc.pqr'', Write (''REMARK'' @ [CHR 0x0A]), Write atom_line,
       Write ter_line, Close])"
  by (simp add: stage_defs example_defs lower_parse write_atom_line write_ter_line)

text \<open>In clean mode no run looks the force field up.\<close>

lemma setup_stage_no_lookup:
  "list_all (\<lambda>ev. \<forall>f. ev \<noteq> GetFFfile f) (snd (ph_calc_setup a))"
  "list_all (\<lambda>ev. \<forall>f. ev \<noteq> GetFFfile f) (snd (open_ligand env a))"
  "list_all (\<lambda>ev. \<forall>f. ev \<noteq> GetFFfile f) (snd (check_neutral a))"
  "list_all (\<lambda>ev. \<forall>f. ev \<noteq> GetFFfile f) (snd (check_parsed env a pdblist errlist))"
  "list_all (\<lambda>ev. \<forall>f. ev \<noteq> GetFFfile f) (snd (run_stage env pdblist a))"
  "list_all (\<lambda>ev. \<forall>f. ev \<noteq> GetFFfile f) (snd (write_output env a res))"
  "list_all (\<lambda>ev. \<forall>f. ev \<noteq> GetFFfile f) (snd (apbs_stage env a))"
  by (auto simp add: ph_calc_setup_def open_ligand_def check_neutral_def check_parsed_def
      run_stage_def write_output_def apbs_stage_def list_all_iff
      split: option.splits sum.splits run_exn.splits)

lemma clean_mode_no_lookup:
  assumes "clean a"
  shows "GetFFfile f \<notin> set (snd (mainCommand env a))"
proof -
  let ?Q = "\<lambda>ev. \<forall>f. ev \<noteq> GetFFfile f"
  have v: "validate env (force_modes a) = (Inr (), [])"
    using assms by (simp add: validate_def)
  have c: "list_all ?Q (snd (configure env a))"
    unfolding configure_def Let_def v
    by (intro and_then_list_all setup_stage_no_lookup) simp_all
  have "list_all ?Q (snd (mainCommand env a))"
  proof (cases "fst (configure env a)")
    case (Inl e)
    with c show ?thesis by (simp add: mainCommand_configure_fails)
  next
    case (Inr a1)
    have "list_all ?Q (snd (and_then (check_parsed env (a1\<lparr>isCIF := False\<rparr>) pdblist errlist) (\<lambda>_.
              and_then (run_stage env pdblist a3) (\<lambda>res.
              and_then (write_output env a3 res) (\<lambda>_. apbs_stage env a3)))))"
      for pdblist errlist a3
      by (intro and_then_list_all setup_stage_no_lookup)
    with c show ?thesis
      unfolding mainCommand_configured [OF Inr] Let_def by simp
  qed
  then show ?thesis
    by (auto simp: list_all_iff)
qed

subsection \<open>The user force field and its names file\<close>

text \<open>
  Claim C10, as the code has it. Outside clean mode, with a user force-field file and no
  user names file, the run ends before any structure processing: line 57 opens the
  force-field file first, so the run ends with the message of line 59 when the file
  opens, and with the error of the failed \<open>open\<close> otherwise.
\<close>

theorem userff_requires_usernames:
  assumes "\<not> clean a" and "userff a = Some p" and "usernames a = None"
  shows "mainCommand env a =
           (if can_read env p then
              (Inl (ParserError ''--usernames must be specified if using --userff''),
               [LogDebug, LogInfo, OpenRead p])
            else (Inl (OSError p), [LogDebug, LogInfo])) \<and>
         filter is_processing (snd (mainCommand env a)) = []"
proof -
  have u: "open_usernames env a = (Inr (), [])"
    using assms by (simp add: open_usernames_def)
  have f: "open_userff env a =
           (if can_read env p then
              (Inl (ParserError ''--usernames must be specified if using --userff''),
               [OpenRead p])
            else (Inl (OSError p), []))"
    using assms by (simp add: open_userff_def)
  have v: "validate env a = open_userff env a"
    using assms(1) by (simp add: validate_def u f)
  obtain e where e: "fst (validate env a) = Inl e"
    unfolding v f by (cases "can_read env p") simp_all
  from validate_fails_no_processing [OF e] e
  have "mainCommand env a = (fst (validate env a), [LogDebug, LogInfo] @ snd (validate env a))"
    and "filter is_processing (snd (mainCommand env a)) = []"
    by (simp_all add: prod_eq_iff)
  then show ?thesis
    unfolding v f by simp
qed

theorem userff_requires_usernames_witness:
  "\<not> clean (example_args\<lparr>userff := Some ''my.dat''\<rparr>) \<and>
   usernames (example_args\<lparr>userff := Some ''my.dat''\<rparr>) = None \<and>
   can_read example_env ''my.dat'' \<and>
   mainCommand example_env (example_args\<lparr>userff := Some ''my.dat''\<rparr>) =
     (Inl (ParserError ''--usernames must be specified if using --userff''),
      [LogDebug, LogInfo, OpenRead ''my.dat''])"
proof -
  let ?a = "example_args\<lparr>userff := Some ''my.dat''\<rparr>"
  have h: "\<not> clean ?a" "userff ?a = Some ''my.dat''" "usernames ?a = None"
    by (simp_all add: example_defs)
  have r: "can_read example_env ''my.dat''"
    by (simp add: example_defs)
  from userff_requires_usernames [OF h, of example_env] h r show ?thesis
    by simp
qed

text \<open>
  With a user force-field file that cannot be opened, the error is that of \<open>open\<close>,
  not the message of line 59.
\<close>

theorem unreadable_userff_counterexample:
  "mainCommand (example_env\<lparr>can_read := \<lambda>p. False\<rparr>)
     (example_args\<lparr>userff := Some ''my.dat''\<rparr>) =
     (Inl (OSError ''my.dat''), [LogDebug, LogInfo]) \<and>
   fst (mainCommand (example_env\<lparr>can_read := \<lambda>p. False\<rparr>)
     (example_args\<lparr>userff := Some ''my.dat''\<rparr>)) \<noteq>
     Inl (ParserError ''--usernames must be specified if using --userff'')"
  by (simp add: stage_defs example_defs)

end
